theory Spec2Isabelle
  imports Main "HOL-Library.AList"
begin

section \<open>The "station" subcommand of weectl (bin/weectl/parse_station.py)\<close>

text \<open>
  The module declares, through Python's \<^verbatim>\<open>argparse\<close>, the parser of
  \<^verbatim>\<open>weectl station\<close> with its four actions, and the two handlers
  \<^verbatim>\<open>create_station\<close> and \<^verbatim>\<open>reconfigure_station\<close> that hand the parsed
  namespace to the configuration engine \<^verbatim>\<open>weecfg.station_config\<close>.

  The embedding has three layers:
  \<^item> the declarations of the module (\<open>add_common_args\<close>, the four action parsers,
    \<open>add_subparser\<close>), as data;
  \<^item> the part of \<^verbatim>\<open>argparse\<close> (CPython 3.11) that these declarations exercise:
    classification of the argument strings, abbreviations, \<^verbatim>\<open>--opt=value\<close> and
    \<^verbatim>\<open>--opt value\<close>, \<^verbatim>\<open>choices\<close>, \<^verbatim>\<open>type\<close>, \<^verbatim>\<open>-h\<close>, sub-parsers and the
    unrecognised arguments;
  \<^item> the two handlers, with the engine as a parameter and every exception as a value.

  Strings are \<open>char list\<close>: the model covers command lines over single-byte characters.
\<close>

subsection \<open>Python values, namespaces\<close>

text \<open>The two function objects that \<^verbatim>\<open>set_defaults(func=...)\<close> binds.\<close>

datatype handler = Create_station | Reconfigure_station

datatype pyval = PNone | PStr string | PBool bool | PFunc handler

text \<open>
  An \<^verbatim>\<open>argparse.Namespace\<close> keeps its attributes in a dictionary (insertion ordered):
  an association list, \<^verbatim>\<open>setattr\<close> being \<open>AList.update\<close> (replace in place, or append)
  and \<^verbatim>\<open>getattr\<close> being \<open>map_of\<close> (\<open>None\<close>: the attribute does not exist, which is not
  the Python value \<open>PNone\<close>).
\<close>

type_synonym namespace = "(string \<times> pyval) list"

definition setattr :: "string \<Rightarrow> pyval \<Rightarrow> namespace \<Rightarrow> namespace" where
  "setattr k v ns = AList.update k v ns"

definition hasattr :: "namespace \<Rightarrow> string \<Rightarrow> bool" where
  "hasattr ns k = (map_of ns k \<noteq> None)"

subsection \<open>Declared arguments\<close>

text \<open>\<^verbatim>\<open>type=None\<close> keeps the string; \<^verbatim>\<open>type=bool\<close> calls \<^verbatim>\<open>bool(arg_string)\<close>.\<close>

datatype type_func = Identity | Bool

record argument =
  option_string :: string
  dest :: string
  choices :: "string list option"
  arg_type :: type_func

text \<open>
  \<^verbatim>\<open>_get_optional_kwargs\<close>: without \<^verbatim>\<open>dest=\<close>, the destination is the option string
  with the leading prefix characters stripped and every \<^verbatim>\<open>-\<close> replaced by \<^verbatim>\<open>_\<close>.
  No argument of the module has a \<^verbatim>\<open>default=\<close>, \<^verbatim>\<open>nargs=\<close>, \<^verbatim>\<open>action=\<close> or
  \<^verbatim>\<open>required=\<close>: each is a store action of one argument with default \<^verbatim>\<open>None\<close>.
\<close>

definition infer_dest :: "string \<Rightarrow> string" where
  "infer_dest opt =
     map (\<lambda>c. if c = CHR ''-'' then CHR ''_'' else c) (dropWhile (\<lambda>c. c = CHR ''-'') opt)"

definition add_argument ::
  "string \<Rightarrow> string option \<Rightarrow> string list option \<Rightarrow> type_func \<Rightarrow> argument" where
  "add_argument opt dest_kw choices_kw type_kw =
     \<lparr> option_string = opt,
       dest = (case dest_kw of Some d \<Rightarrow> d | None \<Rightarrow> infer_dest opt),
       choices = choices_kw,
       arg_type = type_kw \<rparr>"

text \<open>\<^verbatim>\<open>_add_common_args(parser)\<close>, in the order of the source (lines 130 to 166).\<close>

definition add_common_args :: "argument list" where
  "add_common_args =
     [ add_argument ''--driver'' None None Identity,
       add_argument ''--location'' None None Identity,
       add_argument ''--altitude'' None None Identity,
       add_argument ''--latitude'' None None Identity,
       add_argument ''--longitude'' None None Identity,
       add_argument ''--register'' None (Some [''y'', ''n'']) Identity,
       add_argument ''--station-url'' None None Identity,
       add_argument ''--units'' (Some ''unit_system'') (Some [''us'', ''metricwx'', ''metric'']) Identity,
       add_argument ''--skin-root'' None None Identity,
       add_argument ''--sqlite-root'' None None Identity,
       add_argument ''--html-root'' None None Identity,
       add_argument ''--no-prompt'' None None Bool ]"

text \<open>
  A parser made by \<^verbatim>\<open>add_parser\<close>: its store arguments in order of declaration and the
  attributes of \<^verbatim>\<open>set_defaults\<close>. Every parser also has \<^verbatim>\<open>-h\<close> and \<^verbatim>\<open>--help\<close>
  (\<^verbatim>\<open>add_help=True\<close>), declared first.
\<close>

record parser =
  arguments :: "argument list"
  defaults :: "(string \<times> pyval) list"

definition create_station_parser :: parser where
  "create_station_parser =
     \<lparr> arguments = add_argument ''--config'' None None Identity # add_common_args,
       defaults = [(''func'', PFunc Create_station)] \<rparr>"

definition reconfigure_station_parser :: parser where
  "reconfigure_station_parser =
     \<lparr> arguments = add_argument ''--config'' None None Identity # add_common_args,
       defaults = [(''func'', PFunc Reconfigure_station)] \<rparr>"

text \<open>
  Lines 81 to 89: the parsers of \<^verbatim>\<open>upgrade\<close> and \<^verbatim>\<open>upgrade-skins\<close> are created with a
  usage string and a description only; no \<^verbatim>\<open>add_argument\<close>, no \<^verbatim>\<open>set_defaults\<close>.
\<close>

definition upgrade_station_parser :: parser where
  "upgrade_station_parser = \<lparr> arguments = [], defaults = [] \<rparr>"

definition upgrade_skins_parser :: parser where
  "upgrade_skins_parser = \<lparr> arguments = [], defaults = [] \<rparr>"

text \<open>
  \<^verbatim>\<open>add_subparser\<close> creates the station parser, which has no argument of its own, and
  on it \<^verbatim>\<open>station_parser.add_subparsers(dest='action', ...)\<close>: a positional action whose
  choices are the names of \<^verbatim>\<open>_name_parser_map\<close>, filled by the four \<^verbatim>\<open>add_parser\<close>
  calls in this order.
\<close>

record subparsers_action =
  subparsers_dest :: string
  name_parser_map :: "(string \<times> parser) list"

definition action_parser :: subparsers_action where
  "action_parser =
     \<lparr> subparsers_dest = ''action'',
       name_parser_map =
         [ (''create'', create_station_parser),
           (''reconfigure'', reconfigure_station_parser),
           (''upgrade'', upgrade_station_parser),
           (''upgrade-skins'', upgrade_skins_parser) ] \<rparr>"

subsection \<open>argparse: classifying the argument strings\<close>

datatype action = Store argument | Help

definition option_string_actions :: "argument list \<Rightarrow> (string \<times> action) list" where
  "option_string_actions args =
     [(''-h'', Help), (''--help'', Help)] @ map (\<lambda>a. (option_string a, Store a)) args"

text \<open>
  \<^verbatim>\<open>str.partition('=')\<close>: the parts before and after the first \<^verbatim>\<open>=\<close>, if there is one;
  \<^verbatim>\<open>s.startswith(p)\<close>.
\<close>

fun partition_eq :: "string \<Rightarrow> (string \<times> string) option" where
  "partition_eq [] = None"
| "partition_eq (c # cs) =
     (if c = CHR ''='' then Some ([], cs)
      else map_option (\<lambda>(a, b). (c # a, b)) (partition_eq cs))"

fun startswith :: "string \<Rightarrow> string \<Rightarrow> bool" where
  "startswith s [] = True"
| "startswith [] (p # ps) = False"
| "startswith (c # cs) (p # ps) = (c = p \<and> startswith cs ps)"

text \<open>
  \<^verbatim>\<open>_negative_number_matcher\<close>, the regular expression \<^verbatim>\<open>^-\d+$|^-\d*\.\d+$\<close> (where
  \<^verbatim>\<open>$\<close> also matches before a final newline).
\<close>

definition is_digit :: "char \<Rightarrow> bool" where
  "is_digit c = (c \<in> set ''0123456789'')"

definition digits1 :: "string \<Rightarrow> bool" where
  "digits1 s = (s \<noteq> [] \<and> list_all is_digit s)"

definition negative_number_core :: "string \<Rightarrow> bool" where
  "negative_number_core s =
     (case s of
        [] \<Rightarrow> False
      | c # r \<Rightarrow>
          c = CHR ''-'' \<and>
          (digits1 r \<or>
           (case dropWhile is_digit r of
              [] \<Rightarrow> False
            | d # f \<Rightarrow> d = CHR ''.'' \<and> digits1 f)))"

definition negative_number :: "string \<Rightarrow> bool" where
  "negative_number s =
     (negative_number_core s \<or>
      (s \<noteq> [] \<and> last s = CHR 0x0A \<and> negative_number_core (butlast s)))"

text \<open>
  An option tuple \<^verbatim>\<open>(action, option_string, sep, explicit_arg)\<close>; the action is \<open>None\<close>
  for a string that looks like an option this parser does not have.
\<close>

type_synonym option_tuple = "action option \<times> string \<times> string option \<times> string option"

text \<open>
  \<^verbatim>\<open>_get_option_tuples\<close> (\<^verbatim>\<open>allow_abbrev=True\<close>): a string starting with two prefix
  characters matches every option string that starts with the part before \<^verbatim>\<open>=\<close>; a
  single-dash string matches a two-character option string followed by its argument, or
  an option string it is a prefix of. \<^verbatim>\<open>_parse_optional\<close> calls it on strings of at least
  two characters that start with a dash.
\<close>

definition get_option_tuples :: "(string \<times> action) list \<Rightarrow> string \<Rightarrow> option_tuple list" where
  "get_option_tuples opts s =
     (if s ! 1 = CHR ''-'' then
        (let (option_prefix, sep, explicit_arg) =
               (case partition_eq s of
                  Some (p, e) \<Rightarrow> (p, Some ''='', Some e)
                | None \<Rightarrow> (s, None, None))
         in map (\<lambda>(os, a). (Some a, os, sep, explicit_arg))
                (filter (\<lambda>(os, a). startswith os option_prefix) opts))
      else
        concat (map (\<lambda>(os, a).
                  if os = take 2 s then [(Some a, os, Some [], Some (drop 2 s))]
                  else if startswith os s then [(Some a, os, None, None)]
                  else []) opts))"

datatype parse_error =
    Ambiguous_option string "string list"
  | Expected_one_argument string
  | Invalid_choice string string
  | Ignored_explicit_argument string
  | Unrecognized_arguments "string list"

text \<open>
  \<^verbatim>\<open>_parse_optional\<close>: \<open>Inr None\<close> for a positional, \<open>Inr (Some t)\<close> for an option tuple,
  \<open>Inl\<close> for the error of an ambiguous abbreviation; \<open>explicit_option\<close> is its step
  for \<^verbatim>\<open>--opt=value\<close> with the option string spelled out. None of the option strings
  looks like a negative number, so \<^verbatim>\<open>_has_negative_number_optionals\<close> is empty.
\<close>

definition explicit_option :: "(string \<times> action) list \<Rightarrow> string \<Rightarrow> option_tuple option" where
  "explicit_option opts s =
     (case partition_eq s of
        None \<Rightarrow> None
      | Some (os, e) \<Rightarrow>
          (case map_of opts os of
             None \<Rightarrow> None
           | Some a \<Rightarrow> Some (Some a, os, Some ''='', Some e)))"

definition parse_optional ::
  "(string \<times> action) list \<Rightarrow> string \<Rightarrow> parse_error + option_tuple option" where
  "parse_optional opts s =
     (if s = [] then Inr None
      else if hd s \<noteq> CHR ''-'' then Inr None
      else (case map_of opts s of
              Some a \<Rightarrow> Inr (Some (Some a, s, None, None))
            | None \<Rightarrow>
                (if length s = 1 then Inr None
                 else (case explicit_option opts s of
                         Some t \<Rightarrow> Inr (Some t)
                       | None \<Rightarrow>
                           (case get_option_tuples opts s of
                              [] \<Rightarrow>
                                if negative_number s then Inr None
                                else if CHR '' '' \<in> set s then Inr None
                                else Inr (Some (None, s, None, None))
                            | t # ts \<Rightarrow>
                                if ts = [] then Inr (Some t)
                                else Inl (Ambiguous_option s
                                            (map (\<lambda>t. fst (snd t)) (t # ts))))))))"

text \<open>
  The pattern of the command line: \<^verbatim>\<open>A\<close> for an argument, \<^verbatim>\<open>O\<close> for an option (with its
  tuple), \<^verbatim>\<open>-\<close> for the first \<^verbatim>\<open>--\<close>, after which every string is an argument. Each
  token keeps its argument string.
\<close>

datatype token = Arg string | Opt string option_tuple | DashDash

fun tok_string :: "token \<Rightarrow> string" where
  "tok_string (Arg s) = s"
| "tok_string (Opt s t) = s"
| "tok_string DashDash = ''--''"

fun classify :: "(string \<times> action) list \<Rightarrow> string list \<Rightarrow> parse_error + token list" where
  "classify opts [] = Inr []"
| "classify opts (s # ss) =
     (if s = ''--'' then Inr (DashDash # map Arg ss)
      else case parse_optional opts s of
        Inl e \<Rightarrow> Inl e
      | Inr t \<Rightarrow>
          (case classify opts ss of
             Inl e \<Rightarrow> Inl e
           | Inr ts \<Rightarrow> Inr ((case t of None \<Rightarrow> Arg s | Some ot \<Rightarrow> Opt s ot) # ts)))"

subsection \<open>argparse: taking the actions\<close>

text \<open>
  What a parse does: it returns the namespace and the unrecognised strings, or
  \<^verbatim>\<open>parser.error\<close> prints the usage and a message and exits with status 2, or the help
  action prints the help and exits with status 0.
\<close>

datatype result = Parsed namespace "string list" | Exit_error parse_error | Exit_help

text \<open>\<^verbatim>\<open>_get_value\<close>: \<^verbatim>\<open>bool(s)\<close> is true exactly for a non-empty string and never raises.\<close>

definition get_value :: "type_func \<Rightarrow> string \<Rightarrow> pyval" where
  "get_value t s = (case t of Identity \<Rightarrow> PStr s | Bool \<Rightarrow> PBool (s \<noteq> []))"

text \<open>\<^verbatim>\<open>_check_value\<close>: the converted value must be one of the choices, if there are any.\<close>

definition check_value :: "argument \<Rightarrow> pyval \<Rightarrow> bool" where
  "check_value a v = (case choices a of None \<Rightarrow> True | Some cs \<Rightarrow> v \<in> set (map PStr cs))"

text \<open>\<^verbatim>\<open>take_action\<close> for a store action: convert, check, \<^verbatim>\<open>setattr(namespace, dest, value)\<close>.\<close>

definition take_action :: "argument \<Rightarrow> string \<Rightarrow> namespace \<Rightarrow> parse_error + namespace" where
  "take_action a s ns =
     (let v = get_value (arg_type a) s
      in if check_value a v then Inr (setattr (dest a) v ns)
         else Inl (Invalid_choice (option_string a) s))"

text \<open>
  \<^verbatim>\<open>consume_optional\<close> on a single-dash help option with an explicit argument
  (\<^verbatim>\<open>-hx\<close>): the loop reads further single-dash options out of the argument. An error
  raised in the loop comes before any action is taken; otherwise the first action of the
  chain, the help action, prints the help and exits.
\<close>

fun single_dash_chain ::
  "(string \<times> action) list \<Rightarrow> string option \<Rightarrow> string \<Rightarrow> token list \<Rightarrow> result" where
  "single_dash_chain opts sep [] rest = Exit_error (Ignored_explicit_argument [])"
| "single_dash_chain opts sep (c # cs) rest =
     (if sep = Some ''='' \<or> c = CHR ''-'' then Exit_error (Ignored_explicit_argument (c # cs))
      else case map_of opts [CHR ''-'', c] of
        None \<Rightarrow> Exit_help
      | Some Help \<Rightarrow>
          (case cs of
             [] \<Rightarrow> Exit_help
           | d # ds \<Rightarrow>
               if d = CHR ''='' then single_dash_chain opts (Some ''='') ds rest
               else single_dash_chain opts (Some []) cs rest)
      | Some (Store a) \<Rightarrow>
          (case cs of
             [] \<Rightarrow>
               (case rest of
                  Arg v # ts \<Rightarrow> Exit_help
                | _ \<Rightarrow> Exit_error (Expected_one_argument (option_string a)))
           | d # ds \<Rightarrow> Exit_help))"

text \<open>The pattern \<^verbatim>\<open>(-*A[-AO]*)\<close> of the sub-parser positional (\<^verbatim>\<open>nargs=PARSER\<close>).\<close>

fun matches_parser :: "token list \<Rightarrow> bool" where
  "matches_parser (DashDash # ts) = matches_parser ts"
| "matches_parser (Arg s # ts) = True"
| "matches_parser ts = False"

text \<open>
  The loop of \<^verbatim>\<open>_parse_known_args\<close> over the classified strings. \<open>pos\<close> is the pending
  positional of the parser, if it has one: here only the sub-parser action, which takes
  every remaining string once it matches. Without a match, the strings before the next
  option go to the extras, as does an option the parser does not have. A store option
  takes its explicit argument, or else needs the next string to be an argument (pattern
  \<^verbatim>\<open>(A)\<close>, since \<^verbatim>\<open>--\<close> is not allowed for an optional).
\<close>

fun consume ::
  "(string \<times> action) list \<Rightarrow>
   (string \<Rightarrow> string list \<Rightarrow> namespace \<Rightarrow> string list \<Rightarrow> result) option \<Rightarrow>
   token list \<Rightarrow> namespace \<Rightarrow> string list \<Rightarrow> result" where
  "consume opts pos [] ns extras = Parsed ns extras"
| "consume opts pos (Opt s (None, os, sep, ex) # ts) ns extras =
     consume opts pos ts ns (extras @ [s])"
| "consume opts pos (Opt s (Some Help, os, sep, ex) # ts) ns extras =
     (case ex of
        None \<Rightarrow> Exit_help
      | Some e \<Rightarrow>
          if os ! 1 \<noteq> CHR ''-'' then single_dash_chain opts sep e ts
          else Exit_error (Ignored_explicit_argument e))"
| "consume opts pos (Opt s (Some (Store a), os, sep, Some e) # ts) ns extras =
     (case take_action a e ns of
        Inl err \<Rightarrow> Exit_error err
      | Inr ns' \<Rightarrow> consume opts pos ts ns' extras)"
| "consume opts pos (Opt s (Some (Store a), os, sep, None) # ts) ns extras =
     (case ts of
        Arg v # ts' \<Rightarrow>
          (case take_action a v ns of
             Inl err \<Rightarrow> Exit_error err
           | Inr ns' \<Rightarrow> consume opts pos ts' ns' extras)
      | _ \<Rightarrow> Exit_error (Expected_one_argument (option_string a)))"
| "consume opts pos (t # ts) ns extras =
     (case pos of
        None \<Rightarrow> consume opts pos ts ns (extras @ [tok_string t])
      | Some call \<Rightarrow>
          if matches_parser (t # ts) then call (tok_string t) (map tok_string ts) ns extras
          else consume opts pos ts ns (extras @ [tok_string t]))"

text \<open>
  \<^verbatim>\<open>parse_known_args\<close> of a parser made by \<^verbatim>\<open>add_parser\<close>, on a fresh namespace: the
  default \<^verbatim>\<open>None\<close> of every argument whose attribute is not there yet, then the parser
  defaults that are not there yet, then the loop. No argument is required and no
  default is a string, so nothing happens after the loop.
\<close>

definition initial_namespace :: "parser \<Rightarrow> namespace" where
  "initial_namespace p =
     fold (\<lambda>(k, v) ns. if hasattr ns k then ns else setattr k v ns) (defaults p)
       (fold (\<lambda>a ns. if hasattr ns (dest a) then ns else setattr (dest a) PNone ns)
          (arguments p) [])"

definition parse_known_args :: "parser \<Rightarrow> string list \<Rightarrow> result" where
  "parse_known_args p arg_strings =
     (let opts = option_string_actions (arguments p)
      in case classify opts arg_strings of
           Inl e \<Rightarrow> Exit_error e
         | Inr ts \<Rightarrow> consume opts None ts (initial_namespace p) [])"

text \<open>
  \<^verbatim>\<open>_SubParsersAction.__call__\<close>, after \<^verbatim>\<open>_check_value\<close> on the parser name: the name is
  stored under \<^verbatim>\<open>dest\<close>, the chosen parser parses the remaining strings into a fresh
  namespace whose attributes are then copied, and its unrecognised strings are kept.
\<close>

definition subparsers_call ::
  "subparsers_action \<Rightarrow> string \<Rightarrow> string list \<Rightarrow> namespace \<Rightarrow> string list \<Rightarrow> result" where
  "subparsers_call sub parser_name arg_strings ns extras =
     (case map_of (name_parser_map sub) parser_name of
        None \<Rightarrow> Exit_error (Invalid_choice (subparsers_dest sub) parser_name)
      | Some p \<Rightarrow>
          (case parse_known_args p arg_strings of
             Parsed subnamespace sub_extras \<Rightarrow>
               Parsed (fold (\<lambda>(k, v). setattr k v) subnamespace
                         (setattr (subparsers_dest sub) (PStr parser_name) ns))
                      (extras @ sub_extras)
           | r \<Rightarrow> r))"

text \<open>
  The station parser on the strings that follow \<^verbatim>\<open>station\<close>: its only options are
  \<^verbatim>\<open>-h\<close> and \<^verbatim>\<open>--help\<close>, its only positional is the action, which is not required
  and whose attribute defaults to \<^verbatim>\<open>None\<close>.
\<close>

definition station_parse_known_args :: "string list \<Rightarrow> result" where
  "station_parse_known_args arg_strings =
     (let opts = option_string_actions []
      in case classify opts arg_strings of
           Inl e \<Rightarrow> Exit_error e
         | Inr ts \<Rightarrow>
             consume opts (Some (subparsers_call action_parser)) ts
               [(subparsers_dest action_parser, PNone)] [])"

text \<open>
  \<^verbatim>\<open>parse_args\<close>: unrecognised strings are an error. (The top-level parser of weectl
  is outside this module; the strings the station parser hands back are the ones it
  reports.)
\<close>

definition station_parse_args :: "string list \<Rightarrow> result" where
  "station_parse_args arg_strings =
     (case station_parse_known_args arg_strings of
        Parsed ns extras \<Rightarrow>
          if extras = [] then Parsed ns [] else Exit_error (Unrecognized_arguments extras)
      | r \<Rightarrow> r)"

subsection \<open>The handlers and the configuration engine\<close>

text \<open>
  Modelled from the spec: the exception classes are declared outside this module. The
  source names \<^verbatim>\<open>weewx.ViolatedPrecondition\<close> (the taxonomy's PreconditionError); the
  other kinds of the spec's taxonomy are ValidationError, UpgradeStepError and
  WriteError. \<open>AttributeError\<close> is what reading a missing attribute of the namespace
  raises; \<open>OtherException\<close> is any other exception, with the name of its class. A
  \<open>ViolatedPrecondition\<close> value stands for any instance of that class, the other
  constructors for exceptions that are not instances of it; each carries \<^verbatim>\<open>str(e)\<close>.
\<close>

datatype exn =
    ViolatedPrecondition string
  | ValidationError string
  | UpgradeStepError string
  | WriteError string
  | AttributeError string
  | OtherException string string

fun exn_str :: "exn \<Rightarrow> string" where
  "exn_str (ViolatedPrecondition m) = m"
| "exn_str (ValidationError m) = m"
| "exn_str (UpgradeStepError m) = m"
| "exn_str (WriteError m) = m"
| "exn_str (AttributeError m) = m"
| "exn_str (OtherException cls m) = m"

text \<open>
  The entry points \<^verbatim>\<open>weecfg.station_config.create_station\<close> and
  \<^verbatim>\<open>reconfigure_station\<close> are outside this module: the engine is a parameter that
  receives the call, with its keyword arguments in the order written, and either returns
  or raises.
\<close>

type_synonym kwargs = "(string \<times> pyval) list"

datatype engine_call = Call_create_station kwargs | Call_reconfigure_station kwargs

type_synonym engine = "engine_call \<Rightarrow> exn + unit"

text \<open>
  What a handler does: it returns, or it leaves through \<^verbatim>\<open>sys.exit\<close> (exit status and
  the lines written to stderr), or an exception propagates to its caller.
\<close>

datatype outcome = Returned | Exited nat "string list" | Raised exn

record effect =
  calls :: "engine_call list"
  outcome :: outcome

text \<open>
  \<^verbatim>\<open>sys.exit(e)\<close> with an exception object: an argument that is neither \<^verbatim>\<open>None\<close> nor
  an integer is printed to stderr and the exit status is 1.
\<close>

definition sys_exit :: "exn \<Rightarrow> outcome" where
  "sys_exit e = Exited 1 [exn_str e]"

text \<open>
  The keyword arguments of both calls (lines 94 to 105 and 112 to 123): keyword and the
  attribute of the namespace it is read from, evaluated left to right.
\<close>

definition station_kwargs :: "(string \<times> string) list" where
  "station_kwargs =
     [ (''config_path'', ''config''),
       (''driver'', ''driver''),
       (''location'', ''location''),
       (''altitude'', ''altitude''),
       (''latitude'', ''latitude''),
       (''longitude'', ''longitude''),
       (''register'', ''register''),
       (''unit_system'', ''unit_system''),
       (''skin_root'', ''skin_root''),
       (''sqlite_root'', ''sqlite_root''),
       (''html_root'', ''html_root''),
       (''no_prompt'', ''no_prompt'') ]"

fun getattrs :: "namespace \<Rightarrow> (string \<times> string) list \<Rightarrow> exn + kwargs" where
  "getattrs ns [] = Inr []"
| "getattrs ns ((kw, attr) # rest) =
     (case map_of ns attr of
        None \<Rightarrow> Inl (AttributeError attr)
      | Some v \<Rightarrow>
          (case getattrs ns rest of
             Inl e \<Rightarrow> Inl e
           | Inr kws \<Rightarrow> Inr ((kw, v) # kws)))"

text \<open>
  The body shared by the two handlers: the \<^verbatim>\<open>try\<close> block evaluates the arguments and
  calls the engine; \<^verbatim>\<open>except weewx.ViolatedPrecondition as e: sys.exit(e)\<close>; any other
  exception is not handled here.
\<close>

definition call_engine :: "(kwargs \<Rightarrow> engine_call) \<Rightarrow> engine \<Rightarrow> namespace \<Rightarrow> effect" where
  "call_engine entry engine ns =
     (case getattrs ns station_kwargs of
        Inl e \<Rightarrow> \<lparr> calls = [], outcome = Raised e \<rparr>
      | Inr kw \<Rightarrow>
          \<lparr> calls = [entry kw],
            outcome =
              (case engine (entry kw) of
                 Inr u \<Rightarrow> Returned
               | Inl (ViolatedPrecondition m) \<Rightarrow> sys_exit (ViolatedPrecondition m)
               | Inl e \<Rightarrow> Raised e) \<rparr>)"

definition create_station :: "engine \<Rightarrow> namespace \<Rightarrow> effect" where
  "create_station engine ns = call_engine Call_create_station engine ns"

definition reconfigure_station :: "engine \<Rightarrow> namespace \<Rightarrow> effect" where
  "reconfigure_station engine ns = call_engine Call_reconfigure_station engine ns"

text \<open>The function object bound to \<^verbatim>\<open>func\<close>, applied: \<^verbatim>\<open>namespace.func(namespace)\<close>.\<close>

fun apply_handler :: "handler \<Rightarrow> engine \<Rightarrow> namespace \<Rightarrow> effect" where
  "apply_handler Create_station = create_station"
| "apply_handler Reconfigure_station = reconfigure_station"

text \<open>An engine that raises the same exception on every call, and one that returns.\<close>

definition engine_raising :: "exn \<Rightarrow> engine" where
  "engine_raising e call = Inl e"

definition engine_returning :: engine where
  "engine_returning call = Inr ()"

subsection \<open>Reading the command line\<close>

text \<open>The arguments whose store action a classified command line holds.\<close>

definition stores :: "token list \<Rightarrow> argument set" where
  "stores ts = {a. \<exists>s os sep e. Opt s (Some (Store a), os, sep, e) \<in> set ts}"

text \<open>
  An argument string gives the attribute \<open>d\<close> on the command line when the parser reads
  it as an option whose destination is \<open>d\<close>: the option string itself, the option string
  with \<^verbatim>\<open>=value\<close>, or an unambiguous abbreviation of it.
\<close>

definition selects_dest :: "(string \<times> action) list \<Rightarrow> string \<Rightarrow> string \<Rightarrow> bool" where
  "selects_dest opts s d =
     (case parse_optional opts s of
        Inr (Some (Some (Store a), os, sep, e)) \<Rightarrow> dest a = d
      | _ \<Rightarrow> False)"

section \<open>Properties\<close>

subsection \<open>The station parser hands the command line to the parser of the action\<close>

lemma classify_strings:
  "classify opts args = Inr ts \<Longrightarrow> map tok_string ts = args"
proof (induction args arbitrary: ts)
  case Nil
  then show ?case by simp
next
  case (Cons s ss)
  show ?case
  proof (cases "s = ''--''")
    case True
    with Cons.prems show ?thesis by (auto simp: comp_def)
  next
    case False
    with Cons.prems obtain t ts' where
      t: "parse_optional opts s = Inr t" and ts': "classify opts ss = Inr ts'"
      and ts: "ts = (case t of None \<Rightarrow> Arg s | Some ot \<Rightarrow> Opt s ot) # ts'"
      by (auto split: sum.splits)
    from Cons.IH [OF ts'] ts show ?thesis by (cases t) auto
  qed
qed

lemma station_option_tuples:
  assumes "hd s = CHR ''-''" and "2 \<le> length s"
  shows "length (get_option_tuples (option_string_actions []) s) \<le> 1"
proof -
  from assms obtain c r where s: "s = CHR ''-'' # c # r"
    by (cases s; cases "tl s") auto
  show ?thesis
    by (auto simp: s get_option_tuples_def option_string_actions_def split: option.splits)
qed

lemma station_parse_optional: "\<exists>t. parse_optional (option_string_actions []) s = Inr t"
proof (cases "s \<noteq> [] \<and> hd s = CHR ''-'' \<and> length s \<noteq> 1")
  case True
  then have "length (get_option_tuples (option_string_actions []) s) \<le> 1"
    by (intro station_option_tuples; cases s; cases "tl s"; simp)
  then show ?thesis
    by (cases "get_option_tuples (option_string_actions []) s")
       (auto simp: parse_optional_def explicit_option_def split: option.splits)
next
  case False
  then show ?thesis
    by (auto simp: parse_optional_def explicit_option_def split: option.splits)
qed

lemma station_classify: "\<exists>ts. classify (option_string_actions []) args = Inr ts"
proof (induction args)
  case Nil
  then show ?case by simp
next
  case (Cons s ss)
  from station_parse_optional obtain t where "parse_optional (option_string_actions []) s = Inr t" by blast
  with Cons show ?case by auto
qed

lemma station_dispatch:
  assumes "name \<noteq> []" and "hd name \<noteq> CHR ''-''"
  shows "station_parse_known_args (name # args) =
           subparsers_call action_parser name args [(''action'', PNone)] []"
proof -
  from station_classify obtain ts where ts: "classify (option_string_actions []) args = Inr ts" by blast
  from assms have po: "parse_optional (option_string_actions []) name = Inr None"
    by (simp add: parse_optional_def)
  from assms have nd: "name \<noteq> ''--''" by auto
  have "classify (option_string_actions []) (name # args) = Inr (Arg name # ts)"
    using ts po nd by simp
  moreover have "map tok_string ts = args" using ts by (rule classify_strings)
  ultimately show ?thesis
    by (simp add: station_parse_known_args_def action_parser_def)
qed

subsection \<open>What the loop keeps\<close>

lemma stores_simps:
  "stores [] = {}"
  "stores (Arg s # ts) = stores ts"
  "stores (DashDash # ts) = stores ts"
  "stores (Opt s (None, os, sep, e) # ts) = stores ts"
  "stores (Opt s (Some Help, os, sep, e) # ts) = stores ts"
  "stores (Opt s (Some (Store a), os, sep, e) # ts) = insert a (stores ts)"
  by (auto simp: stores_def)

lemma single_dash_chain_not_Parsed: "single_dash_chain opts sep e rest \<noteq> Parsed ns extras"
  by (induction opts sep e rest rule: single_dash_chain.induct)
     (auto split: option.splits action.splits list.splits token.splits)

lemma consume_invariant:
  assumes "consume opts pos ts ns extras = Parsed ns' extras'" and "pos = None"
    and "\<forall>a \<in> stores ts. \<forall>v n n'. take_action a v n = Inr n' \<longrightarrow> I n \<longrightarrow> I n'"
    and "I ns"
  shows "I ns'"
  using assms
proof (induction opts pos ts ns extras rule: consume.induct)
  case (1 opts pos ns extras)
  then show ?case by simp
next
  case (2 opts pos s os sep ex ts ns extras)
  then show ?case by (simp add: stores_simps)
next
  case (3 opts pos s os sep ex ts ns extras)
  then show ?case
    by (auto simp: single_dash_chain_not_Parsed split: option.splits if_splits)
next
  case (4 opts pos s a os sep e ts ns extras)
  from "4.prems"(1) obtain n1 where n1: "take_action a e ns = Inr n1"
    and r: "consume opts pos ts n1 extras = Parsed ns' extras'"
    by (auto split: sum.splits)
  have "I n1" using "4.prems"(3,4) n1 by (auto simp: stores_simps)
  moreover have "\<forall>a \<in> stores ts. \<forall>v n n'. take_action a v n = Inr n' \<longrightarrow> I n \<longrightarrow> I n'"
    using "4.prems"(3) by (simp add: stores_simps)
  ultimately show ?case using "4.IH" [OF n1 r "4.prems"(2)] by blast
next
  case (5 opts pos s a os sep ts ns extras)
  from "5.prems"(1) obtain v ts' n1 where ts: "ts = Arg v # ts'"
    and n1: "take_action a v ns = Inr n1"
    and r: "consume opts pos ts' n1 extras = Parsed ns' extras'"
    by (auto split: list.splits token.splits sum.splits)
  have "I n1" using "5.prems"(3,4) n1 by (auto simp: stores_simps)
  moreover have "\<forall>a \<in> stores ts'. \<forall>v n n'. take_action a v n = Inr n' \<longrightarrow> I n \<longrightarrow> I n'"
    using "5.prems"(3) by (simp add: stores_simps ts)
  ultimately show ?case using "5.IH" [OF ts refl n1 r "5.prems"(2)] by blast
qed (simp_all add: stores_simps)

lemma get_option_tuples_in_opts:
  "(Some act, os, sep, e) \<in> set (get_option_tuples opts s) \<Longrightarrow> (os, act) \<in> set opts"
  by (auto simp: get_option_tuples_def split: if_splits option.splits prod.splits)

lemma parse_optional_in_opts:
  assumes "parse_optional opts s = Inr (Some (Some act, os, sep, e))"
  shows "(os, act) \<in> set opts"
proof -
  have "map_of opts k = Some x \<Longrightarrow> (k, x) \<in> set opts" for k x
    by (rule map_of_SomeD)
  moreover have "get_option_tuples opts s = t # ts \<Longrightarrow> t \<in> set (get_option_tuples opts s)" for t ts
    by simp
  ultimately show ?thesis
    using assms get_option_tuples_in_opts [of act os sep e opts s]
    by (auto simp: parse_optional_def explicit_option_def split: if_splits option.splits list.splits)
qed

lemma classify_stores:
  assumes "classify opts args = Inr ts" and "a \<in> stores ts"
  shows "\<exists>s \<in> set args. \<exists>os sep e. parse_optional opts s = Inr (Some (Some (Store a), os, sep, e))"
  using assms
proof (induction args arbitrary: ts)
  case Nil
  then show ?case by (simp add: stores_def)
next
  case (Cons s ss)
  show ?case
  proof (cases "s = ''--''")
    case True
    with Cons.prems show ?thesis by (auto simp: stores_def)
  next
    case False
    with Cons.prems obtain t ts' where
      t: "parse_optional opts s = Inr t" and ts': "classify opts ss = Inr ts'"
      and ts: "ts = (case t of None \<Rightarrow> Arg s | Some ot \<Rightarrow> Opt s ot) # ts'"
      by (auto split: sum.splits)
    from Cons.prems(2) ts have "a \<in> stores ts' \<or> (\<exists>os sep e. t = Some (Some (Store a), os, sep, e))"
      by (auto simp: stores_def split: option.splits)
    with Cons.IH [OF ts'] t show ?thesis by auto
  qed
qed

lemma fold_setattr:
  "distinct (map fst xs) \<Longrightarrow>
   map_of (fold (\<lambda>(k, v). setattr k v) xs base) = map_of base ++ map_of xs"
proof (induction xs arbitrary: base)
  case Nil
  then show ?case by simp
next
  case (Cons x xs)
  obtain k v where x: "x = (k, v)" by (cases x)
  from Cons.prems x have k: "k \<notin> dom (map_of xs)" by (auto simp: dom_map_of_conv_image_fst)
  from Cons.prems have "distinct (map fst xs)" by simp
  from Cons.IH [OF this] have
    "map_of (fold (\<lambda>(k, v). setattr k v) (x # xs) base) = map_of (setattr k v base) ++ map_of xs"
    by (simp add: x)
  also have "\<dots> = map_of base ++ map_of (x # xs)"
    using k by (auto simp: x setattr_def update_conv' fun_eq_iff map_add_def split: option.splits)
  finally show ?case .
qed

lemma getattrs_present:
  "\<forall>(kw, attr) \<in> set ps. hasattr ns attr \<Longrightarrow>
   getattrs ns ps = Inr (map (\<lambda>(kw, attr). (kw, the (map_of ns attr))) ps)"
  by (induction ps) (auto simp: hasattr_def)

subsection \<open>The handlers\<close>

lemma call_engine_outcome:
  assumes "getattrs ns station_kwargs = Inr kw"
  shows "calls (call_engine entry engine ns) = [entry kw]"
    and "outcome (call_engine entry engine ns) =
           (case engine (entry kw) of
              Inr u \<Rightarrow> Returned
            | Inl (ViolatedPrecondition m) \<Rightarrow> Exited 1 [m]
            | Inl e \<Rightarrow> Raised e)"
  using assms by (auto simp: call_engine_def sys_exit_def split: sum.splits exn.splits)

lemma getattrs_cong:
  "\<forall>(kw, attr) \<in> set ps. map_of ns1 attr = map_of ns2 attr \<Longrightarrow> getattrs ns1 ps = getattrs ns2 ps"
  by (induction ps) (auto split: option.splits sum.splits)

text \<open>
  C5. \<open>create_station\<close> and \<open>reconfigure_station\<close> leave through \<^verbatim>\<open>sys.exit\<close> exactly when
  the engine raises \<^verbatim>\<open>weewx.ViolatedPrecondition\<close>: then the exit status is 1 and the only
  output is the message of the exception; when the engine returns, the handler returns,
  with no exit and no output.
\<close>

theorem handlers_exit_iff_violated_precondition:
  assumes "getattrs ns station_kwargs = Inr kw"
  shows "((\<exists>st out. outcome (create_station engine ns) = Exited st out) \<longleftrightarrow>
            (\<exists>m. engine (Call_create_station kw) = Inl (ViolatedPrecondition m))) \<and>
         (\<forall>m. engine (Call_create_station kw) = Inl (ViolatedPrecondition m) \<longrightarrow>
            outcome (create_station engine ns) = Exited 1 [m]) \<and>
         (engine (Call_create_station kw) = Inr () \<longrightarrow>
            outcome (create_station engine ns) = Returned) \<and>
         ((\<exists>st out. outcome (reconfigure_station engine ns) = Exited st out) \<longleftrightarrow>
            (\<exists>m. engine (Call_reconfigure_station kw) = Inl (ViolatedPrecondition m))) \<and>
         (\<forall>m. engine (Call_reconfigure_station kw) = Inl (ViolatedPrecondition m) \<longrightarrow>
            outcome (reconfigure_station engine ns) = Exited 1 [m]) \<and>
         (engine (Call_reconfigure_station kw) = Inr () \<longrightarrow>
            outcome (reconfigure_station engine ns) = Returned)"
  unfolding create_station_def reconfigure_station_def call_engine_outcome(2) [OF assms]
  by (auto split: sum.splits exn.splits)

theorem handlers_exit_iff_violated_precondition_witness:
  "outcome (create_station (engine_raising (ViolatedPrecondition ''Config file already exists''))
      [(''action'', PStr ''create''), (''config'', PNone), (''driver'', PNone),
       (''location'', PNone), (''altitude'', PNone), (''latitude'', PNone),
       (''longitude'', PNone), (''register'', PNone), (''station_url'', PNone),
       (''unit_system'', PNone), (''skin_root'', PNone), (''sqlite_root'', PNone),
       (''html_root'', PNone), (''no_prompt'', PNone), (''func'', PFunc Create_station)])
     = Exited 1 [''Config file already exists''] \<and>
   outcome (reconfigure_station engine_returning
      [(''action'', PStr ''reconfigure''), (''config'', PNone), (''driver'', PNone),
       (''location'', PStr ''Hood River''), (''altitude'', PNone), (''latitude'', PNone),
       (''longitude'', PNone), (''register'', PNone), (''station_url'', PNone),
       (''unit_system'', PNone), (''skin_root'', PNone), (''sqlite_root'', PNone),
       (''html_root'', PNone), (''no_prompt'', PNone), (''func'', PFunc Reconfigure_station)])
     = Returned"
proof -
  let ?ns1 = "[(''action'', PStr ''create''), (''config'', PNone), (''driver'', PNone),
       (''location'', PNone), (''altitude'', PNone), (''latitude'', PNone),
       (''longitude'', PNone), (''register'', PNone), (''station_url'', PNone),
       (''unit_system'', PNone), (''skin_root'', PNone), (''sqlite_root'', PNone),
       (''html_root'', PNone), (''no_prompt'', PNone), (''func'', PFunc Create_station)]"
  let ?ns2 = "[(''action'', PStr ''reconfigure''), (''config'', PNone), (''driver'', PNone),
       (''location'', PStr ''Hood River''), (''altitude'', PNone), (''latitude'', PNone),
       (''longitude'', PNone), (''register'', PNone), (''station_url'', PNone),
       (''unit_system'', PNone), (''skin_root'', PNone), (''sqlite_root'', PNone),
       (''html_root'', PNone), (''no_prompt'', PNone), (''func'', PFunc Reconfigure_station)]"
  have h1: "getattrs ?ns1 station_kwargs =
      Inr [(''config_path'', PNone), (''driver'', PNone), (''location'', PNone),
           (''altitude'', PNone), (''latitude'', PNone), (''longitude'', PNone),
           (''register'', PNone), (''unit_system'', PNone), (''skin_root'', PNone),
           (''sqlite_root'', PNone), (''html_root'', PNone), (''no_prompt'', PNone)]"
    by (simp add: station_kwargs_def)
  have h2: "getattrs ?ns2 station_kwargs =
      Inr [(''config_path'', PNone), (''driver'', PNone), (''location'', PStr ''Hood River''),
           (''altitude'', PNone), (''latitude'', PNone), (''longitude'', PNone),
           (''register'', PNone), (''unit_system'', PNone), (''skin_root'', PNone),
           (''sqlite_root'', PNone), (''html_root'', PNone), (''no_prompt'', PNone)]"
    by (simp add: station_kwargs_def)
  show ?thesis
    using handlers_exit_iff_violated_precondition [OF h1,
            of "engine_raising (ViolatedPrecondition ''Config file already exists'')"]
          handlers_exit_iff_violated_precondition [OF h2, of engine_returning]
    by (simp add: engine_raising_def engine_returning_def)
qed

text \<open>
  C2 (as stated, refuted). An engine that raises the taxonomy's ValidationError: the handler
  does not turn it into an exit; the exception leaves the handler as it came.
\<close>

theorem validation_error_not_caught:
  "outcome (create_station (engine_raising (ValidationError ''latitude out of range''))
      [(''action'', PStr ''create''), (''config'', PNone), (''driver'', PNone),
       (''location'', PNone), (''altitude'', PNone), (''latitude'', PStr ''95''),
       (''longitude'', PNone), (''register'', PNone), (''station_url'', PNone),
       (''unit_system'', PNone), (''skin_root'', PNone), (''sqlite_root'', PNone),
       (''html_root'', PNone), (''no_prompt'', PNone), (''func'', PFunc Create_station)])
     = Raised (ValidationError ''latitude out of range'')"
  by (simp add: create_station_def call_engine_def station_kwargs_def engine_raising_def)

text \<open>
  C2 (amended). Of the exceptions the engine raises during a create or reconfigure
  invocation, the handler catches \<^verbatim>\<open>weewx.ViolatedPrecondition\<close> and turns it into an
  exit with status 1 whose output is the message; every other exception propagates to
  the caller of the handler unchanged. In no case does the handler return as if the call
  had succeeded.
\<close>

theorem handlers_catch_violated_precondition_only:
  assumes "getattrs ns station_kwargs = Inr kw"
  shows "(engine (Call_create_station kw) = Inl e \<longrightarrow>
            outcome (create_station engine ns) =
              (case e of ViolatedPrecondition m \<Rightarrow> Exited 1 [m] | _ \<Rightarrow> Raised e) \<and>
            outcome (create_station engine ns) \<noteq> Returned) \<and>
         (engine (Call_reconfigure_station kw) = Inl e \<longrightarrow>
            outcome (reconfigure_station engine ns) =
              (case e of ViolatedPrecondition m \<Rightarrow> Exited 1 [m] | _ \<Rightarrow> Raised e) \<and>
            outcome (reconfigure_station engine ns) \<noteq> Returned)"
  unfolding create_station_def reconfigure_station_def call_engine_outcome(2) [OF assms]
  by (auto split: exn.splits)

theorem handlers_catch_violated_precondition_only_witness:
  "outcome (create_station (engine_raising (ViolatedPrecondition ''Registration requires a station URL''))
      [(''config'', PNone), (''driver'', PNone), (''location'', PNone), (''altitude'', PNone),
       (''latitude'', PNone), (''longitude'', PNone), (''register'', PStr ''y''),
       (''station_url'', PNone), (''unit_system'', PNone), (''skin_root'', PNone),
       (''sqlite_root'', PNone), (''html_root'', PNone), (''no_prompt'', PNone)])
     = Exited 1 [''Registration requires a station URL''] \<and>
   outcome (reconfigure_station (engine_raising (WriteError ''Permission denied''))
      [(''config'', PNone), (''driver'', PNone), (''location'', PNone), (''altitude'', PNone),
       (''latitude'', PNone), (''longitude'', PNone), (''register'', PStr ''y''),
       (''station_url'', PNone), (''unit_system'', PNone), (''skin_root'', PNone),
       (''sqlite_root'', PNone), (''html_root'', PNone), (''no_prompt'', PNone)])
     = Raised (WriteError ''Permission denied'')"
proof -
  let ?ns = "[(''config'', PNone), (''driver'', PNone), (''location'', PNone), (''altitude'', PNone),
       (''latitude'', PNone), (''longitude'', PNone), (''register'', PStr ''y''),
       (''station_url'', PNone), (''unit_system'', PNone), (''skin_root'', PNone),
       (''sqlite_root'', PNone), (''html_root'', PNone), (''no_prompt'', PNone)]"
  have h: "getattrs ?ns station_kwargs =
      Inr [(''config_path'', PNone), (''driver'', PNone), (''location'', PNone),
           (''altitude'', PNone), (''latitude'', PNone), (''longitude'', PNone),
           (''register'', PStr ''y''), (''unit_system'', PNone), (''skin_root'', PNone),
           (''sqlite_root'', PNone), (''html_root'', PNone), (''no_prompt'', PNone)]"
    by (simp add: station_kwargs_def)
  show ?thesis
    using handlers_catch_violated_precondition_only [OF h,
            of "engine_raising (ViolatedPrecondition ''Registration requires a station URL'')"
               "ViolatedPrecondition ''Registration requires a station URL''"]
          handlers_catch_violated_precondition_only [OF h,
            of "engine_raising (WriteError ''Permission denied'')" "WriteError ''Permission denied''"]
    by (simp add: engine_raising_def)
qed

text \<open>
  C10. The call a handler makes is a function of the attributes it reads: on two
  namespaces that agree on them, \<open>create_station\<close> makes the same call (same keywords, same
  values) whatever the engine does, and so does \<open>reconfigure_station\<close>; against the same
  engine the whole effect is the same.
\<close>

theorem handlers_deterministic:
  assumes "\<forall>(kw, attr) \<in> set station_kwargs. map_of ns1 attr = map_of ns2 attr"
  shows "calls (create_station engine ns1) = calls (create_station engine' ns2) \<and>
         calls (reconfigure_station engine ns1) = calls (reconfigure_station engine' ns2) \<and>
         create_station engine ns1 = create_station engine ns2 \<and>
         reconfigure_station engine ns1 = reconfigure_station engine ns2"
  using getattrs_cong [OF assms]
  by (auto simp: create_station_def reconfigure_station_def call_engine_def split: sum.splits)

theorem handlers_deterministic_witness:
  "calls (create_station engine_returning
      [(''config'', PStr ''/home/weewx/weewx.conf''), (''driver'', PNone), (''location'', PNone),
       (''altitude'', PStr ''750,foot''), (''latitude'', PNone), (''longitude'', PNone),
       (''register'', PNone), (''station_url'', PNone), (''unit_system'', PStr ''us''),
       (''skin_root'', PNone), (''sqlite_root'', PNone), (''html_root'', PNone),
       (''no_prompt'', PNone), (''func'', PFunc Create_station)])
   = calls (create_station (engine_raising (ViolatedPrecondition ''exists''))
      [(''altitude'', PStr ''750,foot''), (''unit_system'', PStr ''us''),
       (''config'', PStr ''/home/weewx/weewx.conf''), (''driver'', PNone), (''location'', PNone),
       (''latitude'', PNone), (''longitude'', PNone),
       (''register'', PNone), (''station_url'', PStr ''http://example.com''),
       (''skin_root'', PNone), (''sqlite_root'', PNone), (''html_root'', PNone),
       (''no_prompt'', PNone)])"
proof -
  let ?ns1 = "[(''config'', PStr ''/home/weewx/weewx.conf''), (''driver'', PNone), (''location'', PNone),
       (''altitude'', PStr ''750,foot''), (''latitude'', PNone), (''longitude'', PNone),
       (''register'', PNone), (''station_url'', PNone), (''unit_system'', PStr ''us''),
       (''skin_root'', PNone), (''sqlite_root'', PNone), (''html_root'', PNone),
       (''no_prompt'', PNone), (''func'', PFunc Create_station)]"
  let ?ns2 = "[(''altitude'', PStr ''750,foot''), (''unit_system'', PStr ''us''),
       (''config'', PStr ''/home/weewx/weewx.conf''), (''driver'', PNone), (''location'', PNone),
       (''latitude'', PNone), (''longitude'', PNone),
       (''register'', PNone), (''station_url'', PStr ''http://example.com''),
       (''skin_root'', PNone), (''sqlite_root'', PNone), (''html_root'', PNone),
       (''no_prompt'', PNone)]"
  have h: "\<forall>(kw, attr) \<in> set station_kwargs. map_of ?ns1 attr = map_of ?ns2 attr"
    by (simp add: station_kwargs_def)
  from handlers_deterministic [OF h, where engine = engine_returning
         and engine' = "engine_raising (ViolatedPrecondition ''exists'')"]
  show ?thesis by (rule conjunct1)
qed

subsection \<open>Reading one option\<close>








subsection \<open>The parsers of create and reconfigure\<close>

lemmas declaration_defs =
  create_station_parser_def reconfigure_station_parser_def upgrade_station_parser_def
  upgrade_skins_parser_def action_parser_def add_common_args_def add_argument_def infer_dest_def

lemma reconfigure_arguments:
  "arguments reconfigure_station_parser = arguments create_station_parser"
  by (simp add: create_station_parser_def reconfigure_station_parser_def)

lemma station_option_table:
  "option_string_actions (arguments create_station_parser) =
     [ (''-h'', Help), (''--help'', Help),
       (''--config'', Store \<lparr>option_string = ''--config'', dest = ''config'', choices = None, arg_type = Identity\<rparr>),
       (''--driver'', Store \<lparr>option_string = ''--driver'', dest = ''driver'', choices = None, arg_type = Identity\<rparr>),
       (''--location'', Store \<lparr>option_string = ''--location'', dest = ''location'', choices = None, arg_type = Identity\<rparr>),
       (''--altitude'', Store \<lparr>option_string = ''--altitude'', dest = ''altitude'', choices = None, arg_type = Identity\<rparr>),
       (''--latitude'', Store \<lparr>option_string = ''--latitude'', dest = ''latitude'', choices = None, arg_type = Identity\<rparr>),
       (''--longitude'', Store \<lparr>option_string = ''--longitude'', dest = ''longitude'', choices = None, arg_type = Identity\<rparr>),
       (''--register'', Store \<lparr>option_string = ''--register'', dest = ''register'', choices = Some [''y'', ''n''], arg_type = Identity\<rparr>),
       (''--station-url'', Store \<lparr>option_string = ''--station-url'', dest = ''station_url'', choices = None, arg_type = Identity\<rparr>),
       (''--units'', Store \<lparr>option_string = ''--units'', dest = ''unit_system'', choices = Some [''us'', ''metricwx'', ''metric''], arg_type = Identity\<rparr>),
       (''--skin-root'', Store \<lparr>option_string = ''--skin-root'', dest = ''skin_root'', choices = None, arg_type = Identity\<rparr>),
       (''--sqlite-root'', Store \<lparr>option_string = ''--sqlite-root'', dest = ''sqlite_root'', choices = None, arg_type = Identity\<rparr>),
       (''--html-root'', Store \<lparr>option_string = ''--html-root'', dest = ''html_root'', choices = None, arg_type = Identity\<rparr>),
       (''--no-prompt'', Store \<lparr>option_string = ''--no-prompt'', dest = ''no_prompt'', choices = None, arg_type = Bool\<rparr>) ]"
  by (simp add: option_string_actions_def declaration_defs)




lemma station_store_argument:
  "(os, Store a) \<in> set (option_string_actions (arguments p)) \<Longrightarrow> a \<in> set (arguments p)"
  by (auto simp: option_string_actions_def)

lemma create_initial_namespace:
  "initial_namespace create_station_parser =
     [ (''config'', PNone), (''driver'', PNone), (''location'', PNone), (''altitude'', PNone),
       (''latitude'', PNone), (''longitude'', PNone), (''register'', PNone),
       (''station_url'', PNone), (''unit_system'', PNone), (''skin_root'', PNone),
       (''sqlite_root'', PNone), (''html_root'', PNone), (''no_prompt'', PNone),
       (''func'', PFunc Create_station) ]"
  by (simp add: initial_namespace_def declaration_defs hasattr_def setattr_def)

lemma reconfigure_initial_namespace:
  "initial_namespace reconfigure_station_parser =
     [ (''config'', PNone), (''driver'', PNone), (''location'', PNone), (''altitude'', PNone),
       (''latitude'', PNone), (''longitude'', PNone), (''register'', PNone),
       (''station_url'', PNone), (''unit_system'', PNone), (''skin_root'', PNone),
       (''sqlite_root'', PNone), (''html_root'', PNone), (''no_prompt'', PNone),
       (''func'', PFunc Reconfigure_station) ]"
  by (simp add: initial_namespace_def declaration_defs hasattr_def setattr_def)

subsection \<open>What a parse of create or reconfigure returns\<close>

lemma take_action_Inr:
  assumes "take_action a v n = Inr n'"
  shows "n' = setattr (dest a) (get_value (arg_type a) v) n"
    and "check_value a (get_value (arg_type a) v)"
  using assms by (auto simp: take_action_def Let_def split: if_splits)

lemma leaf_invariant:
  assumes "parse_known_args p args = Parsed subns extras"
    and "\<forall>a \<in> set (arguments p). \<forall>v n n'. take_action a v n = Inr n' \<longrightarrow> I n \<longrightarrow> I n'"
    and "I (initial_namespace p)"
  shows "I subns"
proof -
  let ?opts = "option_string_actions (arguments p)"
  from assms(1) obtain ts where ts: "classify ?opts args = Inr ts"
    and c: "consume ?opts None ts (initial_namespace p) [] = Parsed subns extras"
    by (auto simp: parse_known_args_def Let_def split: sum.splits)
  have "a \<in> set (arguments p)" if "a \<in> stores ts" for a
    using classify_stores [OF ts that] parse_optional_in_opts station_store_argument by blast
  with assms(2) have "\<forall>a \<in> stores ts. \<forall>v n n'. take_action a v n = Inr n' \<longrightarrow> I n \<longrightarrow> I n'"
    by blast
  from consume_invariant [OF c refl this assms(3)] show ?thesis .
qed

lemma leaf_distinct:
  assumes "parse_known_args p args = Parsed subns extras"
    and "distinct (map fst (initial_namespace p))"
  shows "distinct (map fst subns)"
  using assms(1) _ assms(2)
  by (rule leaf_invariant) (auto dest!: take_action_Inr(1) simp: setattr_def distinct_update)

lemma leaf_hasattr:
  assumes "parse_known_args p args = Parsed subns extras"
    and "hasattr (initial_namespace p) k"
  shows "hasattr subns k"
  using assms(1) _ assms(2)
  by (rule leaf_invariant) (auto dest!: take_action_Inr(1) simp: setattr_def hasattr_def update_conv')

lemma selects_destD:
  assumes "selects_dest opts s d"
  obtains a os sep e where "parse_optional opts s = Inr (Some (Some (Store a), os, sep, e))"
    and "dest a = d"
proof (cases "parse_optional opts s")
  case (Inl err)
  with assms show ?thesis by (simp add: selects_dest_def)
next
  case (Inr t)
  show ?thesis
  proof (cases t)
    case None
    with assms Inr show ?thesis by (simp add: selects_dest_def)
  next
    case (Some ot)
    obtain act os sep e where ot: "ot = (act, os, sep, e)" by (cases ot)
    show ?thesis
    proof (cases act)
      case None
      with assms Inr Some ot show ?thesis by (simp add: selects_dest_def)
    next
      case (Some x)
      with assms Inr \<open>t = Some ot\<close> ot that show ?thesis
        by (cases x) (simp_all add: selects_dest_def)
    qed
  qed
qed

lemma leaf_not_given:
  assumes "parse_known_args p args = Parsed subns extras"
    and "\<forall>s \<in> set args. \<not> selects_dest (option_string_actions (arguments p)) s d"
  shows "map_of subns d = map_of (initial_namespace p) d"
proof -
  let ?opts = "option_string_actions (arguments p)"
  from assms(1) obtain ts where ts: "classify ?opts args = Inr ts"
    and c: "consume ?opts None ts (initial_namespace p) [] = Parsed subns extras"
    by (auto simp: parse_known_args_def Let_def split: sum.splits)
  have other: "dest a \<noteq> d" if "a \<in> stores ts" for a
  proof -
    from classify_stores [OF ts that] obtain s os sep e where "s \<in> set args"
      and "parse_optional ?opts s = Inr (Some (Some (Store a), os, sep, e))" by blast
    then have "s \<in> set args" and "selects_dest ?opts s (dest a)"
      by (simp_all add: selects_dest_def)
    with assms(2) show ?thesis by blast
  qed
  have "\<forall>a \<in> stores ts. \<forall>v n n'. take_action a v n = Inr n' \<longrightarrow>
      map_of n d = map_of (initial_namespace p) d \<longrightarrow> map_of n' d = map_of (initial_namespace p) d"
  proof (intro ballI allI impI)
    fix a v n n'
    assume "a \<in> stores ts" and t: "take_action a v n = Inr n'"
      and n: "map_of n d = map_of (initial_namespace p) d"
    from \<open>a \<in> stores ts\<close> have "dest a \<noteq> d" by (rule other)
    with n show "map_of n' d = map_of (initial_namespace p) d"
      by (simp add: take_action_Inr(1) [OF t] setattr_def update_conv')
  qed
  from consume_invariant [OF c refl this] show ?thesis by simp
qed

lemma station_action:
  assumes "map_of (name_parser_map action_parser) name = Some p"
    and "name \<noteq> []" and "hd name \<noteq> CHR ''-''"
  shows "station_parse_known_args (name # args) =
           (case parse_known_args p args of
              Parsed subns extras \<Rightarrow>
                Parsed (fold (\<lambda>(k, v). setattr k v) subns [(''action'', PStr name)]) extras
            | r \<Rightarrow> r)"
  using assms(1)
  by (simp add: station_dispatch [OF assms(2,3)] subparsers_call_def setattr_def action_parser_def
           split: result.splits)

lemma merged_lookup:
  assumes "distinct (map fst subns)"
  shows "map_of (fold (\<lambda>(k, v). setattr k v) subns [(''action'', PStr name)]) k =
           (case map_of subns k of
              Some v \<Rightarrow> Some v
            | None \<Rightarrow> if k = ''action'' then Some (PStr name) else None)"
  by (simp add: fold_setattr [OF assms] map_add_def split: option.splits)

text \<open>The parser an action name selects, and the handler its namespace is bound to.\<close>

lemma action_cases:
  assumes "act = ''create'' \<or> act = ''reconfigure''"
  obtains p h where "map_of (name_parser_map action_parser) act = Some p"
    and "arguments p = arguments create_station_parser"
    and "initial_namespace p =
           [ (''config'', PNone), (''driver'', PNone), (''location'', PNone), (''altitude'', PNone),
             (''latitude'', PNone), (''longitude'', PNone), (''register'', PNone),
             (''station_url'', PNone), (''unit_system'', PNone), (''skin_root'', PNone),
             (''sqlite_root'', PNone), (''html_root'', PNone), (''no_prompt'', PNone),
             (''func'', PFunc h) ]"
    and "h = (if act = ''create'' then Create_station else Reconfigure_station)"
    and "act \<noteq> []" and "hd act \<noteq> CHR ''-''"
  using assms
proof
  assume "act = ''create''"
  then show ?thesis
    using that [of create_station_parser Create_station] create_initial_namespace
    by (simp add: action_parser_def)
next
  assume "act = ''reconfigure''"
  then show ?thesis
    using that [of reconfigure_station_parser Reconfigure_station]
      reconfigure_initial_namespace reconfigure_arguments
    by (simp add: action_parser_def)
qed

lemma station_parsed:
  assumes "act = ''create'' \<or> act = ''reconfigure''"
    and "station_parse_known_args (act # args) = Parsed ns extras"
  obtains p subns where "map_of (name_parser_map action_parser) act = Some p"
    and "arguments p = arguments create_station_parser"
    and "parse_known_args p args = Parsed subns extras"
    and "\<And>k. map_of ns k =
           (case map_of subns k of
              Some v \<Rightarrow> Some v
            | None \<Rightarrow> if k = ''action'' then Some (PStr act) else None)"
    and "\<And>k. k \<in> set [''config'', ''driver'', ''location'', ''altitude'', ''latitude'',
           ''longitude'', ''register'', ''station_url'', ''unit_system'', ''skin_root'',
           ''sqlite_root'', ''html_root'', ''no_prompt'', ''func''] \<Longrightarrow> hasattr subns k"
    and "map_of subns ''func'' =
           Some (PFunc (if act = ''create'' then Create_station else Reconfigure_station))"
    and "\<And>k. k \<in> set [''config'', ''driver'', ''location'', ''altitude'', ''latitude'',
           ''longitude'', ''register'', ''station_url'', ''unit_system'', ''skin_root'',
           ''sqlite_root'', ''html_root'', ''no_prompt''] \<Longrightarrow>
           map_of (initial_namespace p) k = Some PNone"
proof -
  from assms(1) obtain p h where p: "map_of (name_parser_map action_parser) act = Some p"
    and args: "arguments p = arguments create_station_parser"
    and init: "initial_namespace p =
           [ (''config'', PNone), (''driver'', PNone), (''location'', PNone), (''altitude'', PNone),
             (''latitude'', PNone), (''longitude'', PNone), (''register'', PNone),
             (''station_url'', PNone), (''unit_system'', PNone), (''skin_root'', PNone),
             (''sqlite_root'', PNone), (''html_root'', PNone), (''no_prompt'', PNone),
             (''func'', PFunc h) ]"
    and h: "h = (if act = ''create'' then Create_station else Reconfigure_station)"
    and name: "act \<noteq> []" "hd act \<noteq> CHR ''-''"
    by (rule action_cases)
  from assms(2) obtain subns where leaf: "parse_known_args p args = Parsed subns extras"
    and ns: "ns = fold (\<lambda>(k, v). setattr k v) subns [(''action'', PStr act)]"
    by (auto simp: station_action [OF p name] split: result.splits)
  have d: "distinct (map fst subns)"
    using leaf by (rule leaf_distinct) (simp add: init)
  have present: "hasattr subns k"
    if "k \<in> set [''config'', ''driver'', ''location'', ''altitude'', ''latitude'',
           ''longitude'', ''register'', ''station_url'', ''unit_system'', ''skin_root'',
           ''sqlite_root'', ''html_root'', ''no_prompt'', ''func'']" for k
    using leaf by (rule leaf_hasattr) (use that in \<open>auto simp: init hasattr_def\<close>)
  have "\<forall>s \<in> set args. \<not> selects_dest (option_string_actions (arguments p)) s ''func''"
  proof
    fix s assume "s \<in> set args"
    show "\<not> selects_dest (option_string_actions (arguments p)) s ''func''"
    proof
      assume "selects_dest (option_string_actions (arguments p)) s ''func''"
      then obtain a os sep e where
        "parse_optional (option_string_actions (arguments p)) s = Inr (Some (Some (Store a), os, sep, e))"
        and f: "dest a = ''func''"
        by (rule selects_destD)
      then have "a \<in> set (arguments create_station_parser)"
        using parse_optional_in_opts station_store_argument args by metis
      with f show False by (auto simp: declaration_defs)
    qed
  qed
  from leaf_not_given [OF leaf this] have f: "map_of subns ''func'' = Some (PFunc h)"
    by (simp add: init)
  have none: "map_of (initial_namespace p) k = Some PNone"
    if "k \<in> set [''config'', ''driver'', ''location'', ''altitude'', ''latitude'',
           ''longitude'', ''register'', ''station_url'', ''unit_system'', ''skin_root'',
           ''sqlite_root'', ''html_root'', ''no_prompt'']" for k
    using that by (auto simp: init)
  show ?thesis
    using that [OF p args leaf] merged_lookup [OF d, of act] present f none
    by (simp add: ns h)
qed


lemma station_kwargs_of:
  assumes "\<forall>k \<in> set [''config'', ''driver'', ''location'', ''altitude'', ''latitude'',
           ''longitude'', ''register'', ''station_url'', ''unit_system'', ''skin_root'',
           ''sqlite_root'', ''html_root'', ''no_prompt'', ''func'']. hasattr ns k"
  obtains kw where "getattrs ns station_kwargs = Inr kw"
    and "\<And>d. d \<in> set [''driver'', ''location'', ''altitude'', ''latitude'', ''longitude'',
           ''register'', ''unit_system'', ''skin_root'', ''sqlite_root'', ''html_root'',
           ''no_prompt''] \<Longrightarrow> map_of kw d = map_of ns d"
    and "map_of kw ''config_path'' = map_of ns ''config''"
    and "map_of kw ''station_url'' = None"
proof -
  have "\<forall>(kw, attr) \<in> set station_kwargs. hasattr ns attr"
    using assms by (simp add: station_kwargs_def)
  from getattrs_present [OF this] have
    kw: "getattrs ns station_kwargs = Inr (map (\<lambda>(kw, attr). (kw, the (map_of ns attr))) station_kwargs)" .
  have some: "\<forall>k \<in> set [''config'', ''driver'', ''location'', ''altitude'', ''latitude'',
           ''longitude'', ''register'', ''station_url'', ''unit_system'', ''skin_root'',
           ''sqlite_root'', ''html_root'', ''no_prompt'', ''func'']. Some (the (map_of ns k)) = map_of ns k"
    using assms by (auto simp: hasattr_def)
  show ?thesis
  proof (rule that [OF kw])
    fix d :: string
    assume "d \<in> set [''driver'', ''location'', ''altitude'', ''latitude'', ''longitude'',
           ''register'', ''unit_system'', ''skin_root'', ''sqlite_root'', ''html_root'',
           ''no_prompt'']"
    then have "d = ''driver'' \<or> d = ''location'' \<or> d = ''altitude'' \<or> d = ''latitude'' \<or>
        d = ''longitude'' \<or> d = ''register'' \<or> d = ''unit_system'' \<or> d = ''skin_root'' \<or>
        d = ''sqlite_root'' \<or> d = ''html_root'' \<or> d = ''no_prompt''"
      by simp
    then show "map_of (map (\<lambda>(kw, attr). (kw, the (map_of ns attr))) station_kwargs) d = map_of ns d"
      using some by (elim disjE) (simp_all add: station_kwargs_def)
  next
    show "map_of (map (\<lambda>(kw, attr). (kw, the (map_of ns attr))) station_kwargs) ''config_path'' =
            map_of ns ''config''"
      using some by (simp add: station_kwargs_def)
  next
    show "map_of (map (\<lambda>(kw, attr). (kw, the (map_of ns attr))) station_kwargs) ''station_url'' = None"
      by (simp add: station_kwargs_def)
  qed
qed

lemma station_forwarded:
  assumes "act = ''create'' \<or> act = ''reconfigure''"
    and "station_parse_known_args (act # args) = Parsed ns extras"
  obtains kw where
    "calls (apply_handler (if act = ''create'' then Create_station else Reconfigure_station) engine ns) =
       [(if act = ''create'' then Call_create_station else Call_reconfigure_station) kw]"
    and "\<And>d. d \<in> set [''driver'', ''location'', ''altitude'', ''latitude'', ''longitude'',
           ''register'', ''unit_system'', ''skin_root'', ''sqlite_root'', ''html_root'',
           ''no_prompt''] \<Longrightarrow> map_of kw d = map_of ns d"
    and "map_of kw ''config_path'' = map_of ns ''config''"
    and "map_of kw ''station_url'' = None"
    and "map_of ns ''func'' =
           Some (PFunc (if act = ''create'' then Create_station else Reconfigure_station))"
proof -
  from assms obtain p subns where
    "map_of (name_parser_map action_parser) act = Some p"
    and "arguments p = arguments create_station_parser"
    and "parse_known_args p args = Parsed subns extras"
    and look: "\<And>k. map_of ns k =
           (case map_of subns k of
              Some v \<Rightarrow> Some v
            | None \<Rightarrow> if k = ''action'' then Some (PStr act) else None)"
    and present: "\<And>k. k \<in> set [''config'', ''driver'', ''location'', ''altitude'', ''latitude'',
           ''longitude'', ''register'', ''station_url'', ''unit_system'', ''skin_root'',
           ''sqlite_root'', ''html_root'', ''no_prompt'', ''func''] \<Longrightarrow> hasattr subns k"
    and func: "map_of subns ''func'' =
           Some (PFunc (if act = ''create'' then Create_station else Reconfigure_station))"
    and "\<And>k. k \<in> set [''config'', ''driver'', ''location'', ''altitude'', ''latitude'',
           ''longitude'', ''register'', ''station_url'', ''unit_system'', ''skin_root'',
           ''sqlite_root'', ''html_root'', ''no_prompt''] \<Longrightarrow>
           map_of (initial_namespace p) k = Some PNone"
    by (rule station_parsed) (rule that)
  have "hasattr ns k"
    if "k \<in> set [''config'', ''driver'', ''location'', ''altitude'', ''latitude'',
           ''longitude'', ''register'', ''station_url'', ''unit_system'', ''skin_root'',
           ''sqlite_root'', ''html_root'', ''no_prompt'', ''func'']" for k
    using present [OF that] by (auto simp: hasattr_def look)
  then have present_ns: "\<forall>k \<in> set [''config'', ''driver'', ''location'', ''altitude'', ''latitude'',
           ''longitude'', ''register'', ''station_url'', ''unit_system'', ''skin_root'',
           ''sqlite_root'', ''html_root'', ''no_prompt'', ''func'']. hasattr ns k"
    by blast
  obtain kw where kw: "getattrs ns station_kwargs = Inr kw"
    and fw: "\<And>d. d \<in> set [''driver'', ''location'', ''altitude'', ''latitude'', ''longitude'',
           ''register'', ''unit_system'', ''skin_root'', ''sqlite_root'', ''html_root'',
           ''no_prompt''] \<Longrightarrow> map_of kw d = map_of ns d"
    and cp: "map_of kw ''config_path'' = map_of ns ''config''"
    and su: "map_of kw ''station_url'' = None"
    by (rule station_kwargs_of [OF present_ns]) (rule that)
  have c: "calls (apply_handler (if act = ''create'' then Create_station else Reconfigure_station) engine ns) =
       [(if act = ''create'' then Call_create_station else Call_reconfigure_station) kw]"
    by (simp add: create_station_def reconfigure_station_def call_engine_outcome(1) [OF kw])
  have f: "map_of ns ''func'' =
           Some (PFunc (if act = ''create'' then Create_station else Reconfigure_station))"
    by (simp add: look func)
  show ?thesis by (rule that [OF c fw cp su f])
qed




lemma upgrade_parsers:
  "map_of (name_parser_map action_parser) ''upgrade'' = Some upgrade_station_parser"
  "map_of (name_parser_map action_parser) ''upgrade-skins'' = Some upgrade_skins_parser"
  "map_of (name_parser_map action_parser) ''create'' = Some create_station_parser"
  "map_of (name_parser_map action_parser) ''reconfigure'' = Some reconfigure_station_parser"
  by (simp_all add: action_parser_def)

text \<open>
  C3. \<^verbatim>\<open>weectl station upgrade\<close> and \<^verbatim>\<open>weectl station upgrade-skins\<close> parse, but the
  namespace holds the action name only: no \<open>func\<close> is bound, whereas the namespaces of
  create and reconfigure are bound to \<open>create_station\<close> and \<open>reconfigure_station\<close>.
\<close>

theorem upgrade_binds_no_handler:
  "station_parse_args [''upgrade''] = Parsed [(''action'', PStr ''upgrade'')] [] \<and>
   station_parse_args [''upgrade-skins''] = Parsed [(''action'', PStr ''upgrade-skins'')] [] \<and>
   map_of [(''action'', PStr ''upgrade'')] ''func'' = None \<and>
   map_of [(''action'', PStr ''upgrade-skins'')] ''func'' = None \<and>
   station_parse_args [''create''] =
     Parsed [ (''action'', PStr ''create''), (''config'', PNone), (''driver'', PNone),
              (''location'', PNone), (''altitude'', PNone), (''latitude'', PNone),
              (''longitude'', PNone), (''register'', PNone), (''station_url'', PNone),
              (''unit_system'', PNone), (''skin_root'', PNone), (''sqlite_root'', PNone),
              (''html_root'', PNone), (''no_prompt'', PNone), (''func'', PFunc Create_station) ] []"
proof -
  have 1: "station_parse_known_args [''upgrade''] = Parsed [(''action'', PStr ''upgrade'')] []"
    by (simp add: station_action [OF upgrade_parsers(1)] upgrade_station_parser_def
          parse_known_args_def initial_namespace_def)
  have 2: "station_parse_known_args [''upgrade-skins''] =
             Parsed [(''action'', PStr ''upgrade-skins'')] []"
    by (simp add: station_action [OF upgrade_parsers(2)] upgrade_skins_parser_def
          parse_known_args_def initial_namespace_def)
  have 3: "station_parse_known_args [''create''] =
     Parsed [ (''action'', PStr ''create''), (''config'', PNone), (''driver'', PNone),
              (''location'', PNone), (''altitude'', PNone), (''latitude'', PNone),
              (''longitude'', PNone), (''register'', PNone), (''station_url'', PNone),
              (''unit_system'', PNone), (''skin_root'', PNone), (''sqlite_root'', PNone),
              (''html_root'', PNone), (''no_prompt'', PNone), (''func'', PFunc Create_station) ] []"
    by (simp add: station_action [OF upgrade_parsers(3)] parse_known_args_def
          create_initial_namespace setattr_def)
  show ?thesis
    by (simp add: station_parse_args_def 1 2 3)
qed

text \<open>
  C4. \<^verbatim>\<open>weectl station upgrade --config=PATH\<close> is not accepted, whatever the path: the
  parser of upgrade has no \<^verbatim>\<open>--config\<close>, the string comes back unrecognised, the
  namespace records no path, and \<^verbatim>\<open>parse_args\<close> stops with an error. The same holds for
  upgrade-skins.
\<close>

theorem upgrade_rejects_config:
  "station_parse_known_args [''upgrade'', ''--config='' @ path] =
     Parsed [(''action'', PStr ''upgrade'')] [''--config='' @ path] \<and>
   station_parse_args [''upgrade'', ''--config='' @ path] =
     Exit_error (Unrecognized_arguments [''--config='' @ path]) \<and>
   station_parse_known_args [''upgrade-skins'', ''--config='' @ path] =
     Parsed [(''action'', PStr ''upgrade-skins'')] [''--config='' @ path] \<and>
   station_parse_args [''upgrade-skins'', ''--config='' @ path] =
     Exit_error (Unrecognized_arguments [''--config='' @ path])"
proof -
  have po: "parse_optional (option_string_actions []) (''--config='' @ path) =
          (if CHR '' '' \<in> set path then Inr None
           else Inr (Some (None, ''--config='' @ path, None, None)))"
    by (simp add: option_string_actions_def parse_optional_def explicit_option_def
          get_option_tuples_def negative_number_def negative_number_core_def digits1_def
          is_digit_def)
  have leaf: "parse_known_args p [''--config='' @ path] = Parsed [] [''--config='' @ path]"
    if "arguments p = []" and "defaults p = []" for p
    using that po by (simp add: parse_known_args_def initial_namespace_def)
  have 1: "station_parse_known_args [''upgrade'', ''--config='' @ path] =
     Parsed [(''action'', PStr ''upgrade'')] [''--config='' @ path]"
    using leaf [of upgrade_station_parser]
    by (simp add: station_action [OF upgrade_parsers(1)] upgrade_station_parser_def)
  have 2: "station_parse_known_args [''upgrade-skins'', ''--config='' @ path] =
     Parsed [(''action'', PStr ''upgrade-skins'')] [''--config='' @ path]"
    using leaf [of upgrade_skins_parser]
    by (simp add: station_action [OF upgrade_parsers(2)] upgrade_skins_parser_def)
  show ?thesis
    using 1 2 by (simp add: station_parse_args_def)
qed

text \<open>
  C6. On a command line of create or reconfigure that parses, every attribute among the
  eleven named ones that no argument string gives is \<^verbatim>\<open>None\<close> in the namespace, and
  \<^verbatim>\<open>None\<close> is the value of its keyword in the call to the engine: no default is put in
  its place.
\<close>

theorem absent_option_forwarded_as_None:
  assumes "act = ''create'' \<or> act = ''reconfigure''"
    and "station_parse_known_args (act # args) = Parsed ns extras"
    and "d \<in> set [''driver'', ''location'', ''altitude'', ''latitude'', ''longitude'',
           ''register'', ''unit_system'', ''skin_root'', ''sqlite_root'', ''html_root'',
           ''no_prompt'']"
    and "\<forall>s \<in> set args.
           \<not> selects_dest (option_string_actions (arguments create_station_parser)) s d"
  shows "map_of ns d = Some PNone \<and>
         (\<exists>kw. calls (apply_handler
                        (if act = ''create'' then Create_station else Reconfigure_station)
                        engine ns) =
                 [(if act = ''create'' then Call_create_station else Call_reconfigure_station) kw] \<and>
               map_of kw d = Some PNone)"
proof -
  from assms(1,2) obtain p subns where
    "map_of (name_parser_map action_parser) act = Some p"
    and args: "arguments p = arguments create_station_parser"
    and leaf: "parse_known_args p args = Parsed subns extras"
    and look: "\<And>k. map_of ns k =
           (case map_of subns k of
              Some v \<Rightarrow> Some v
            | None \<Rightarrow> if k = ''action'' then Some (PStr act) else None)"
    and "\<And>k. k \<in> set [''config'', ''driver'', ''location'', ''altitude'', ''latitude'',
           ''longitude'', ''register'', ''station_url'', ''unit_system'', ''skin_root'',
           ''sqlite_root'', ''html_root'', ''no_prompt'', ''func''] \<Longrightarrow> hasattr subns k"
    and "map_of subns ''func'' =
           Some (PFunc (if act = ''create'' then Create_station else Reconfigure_station))"
    and none: "\<And>k. k \<in> set [''config'', ''driver'', ''location'', ''altitude'', ''latitude'',
           ''longitude'', ''register'', ''station_url'', ''unit_system'', ''skin_root'',
           ''sqlite_root'', ''html_root'', ''no_prompt''] \<Longrightarrow>
           map_of (initial_namespace p) k = Some PNone"
    by (rule station_parsed) (rule that)
  from assms(3) have "map_of (initial_namespace p) d = Some PNone"
    by (intro none) auto
  with leaf_not_given [OF leaf, of d] assms(4) have "map_of subns d = Some PNone"
    by (simp add: args)
  then have ns: "map_of ns d = Some PNone"
    by (simp add: look)
  from assms(1,2) obtain kw where
    c: "calls (apply_handler (if act = ''create'' then Create_station else Reconfigure_station) engine ns) =
       [(if act = ''create'' then Call_create_station else Call_reconfigure_station) kw]"
    and fw: "\<And>d. d \<in> set [''driver'', ''location'', ''altitude'', ''latitude'', ''longitude'',
           ''register'', ''unit_system'', ''skin_root'', ''sqlite_root'', ''html_root'',
           ''no_prompt''] \<Longrightarrow> map_of kw d = map_of ns d"
    and "map_of kw ''config_path'' = map_of ns ''config''"
    and "map_of kw ''station_url'' = None"
    and "map_of ns ''func'' =
           Some (PFunc (if act = ''create'' then Create_station else Reconfigure_station))"
    by (rule station_forwarded) (rule that)
  from fw [OF assms(3)] ns c show ?thesis by auto
qed

theorem absent_option_forwarded_as_None_witness:
  "station_parse_known_args [''create'', ''--driver=weewx.drivers.vantage'', ''--units'', ''metric''] =
     Parsed [ (''action'', PStr ''create''), (''config'', PNone),
              (''driver'', PStr ''weewx.drivers.vantage''), (''location'', PNone),
              (''altitude'', PNone), (''latitude'', PNone), (''longitude'', PNone),
              (''register'', PNone), (''station_url'', PNone),
              (''unit_system'', PStr ''metric''), (''skin_root'', PNone),
              (''sqlite_root'', PNone), (''html_root'', PNone), (''no_prompt'', PNone),
              (''func'', PFunc Create_station) ] [] \<and>
   (\<exists>kw. calls (create_station engine_returning
              [ (''action'', PStr ''create''), (''config'', PNone),
                (''driver'', PStr ''weewx.drivers.vantage''), (''location'', PNone),
                (''altitude'', PNone), (''latitude'', PNone), (''longitude'', PNone),
                (''register'', PNone), (''station_url'', PNone),
                (''unit_system'', PStr ''metric''), (''skin_root'', PNone),
                (''sqlite_root'', PNone), (''html_root'', PNone), (''no_prompt'', PNone),
                (''func'', PFunc Create_station) ]) = [Call_create_station kw] \<and>
         map_of kw ''altitude'' = Some PNone)"
proof -
  let ?ns = "[ (''action'', PStr ''create''), (''config'', PNone),
              (''driver'', PStr ''weewx.drivers.vantage''), (''location'', PNone),
              (''altitude'', PNone), (''latitude'', PNone), (''longitude'', PNone),
              (''register'', PNone), (''station_url'', PNone),
              (''unit_system'', PStr ''metric''), (''skin_root'', PNone),
              (''sqlite_root'', PNone), (''html_root'', PNone), (''no_prompt'', PNone),
              (''func'', PFunc Create_station) ]"
  let ?opts = "option_string_actions (arguments create_station_parser)"
  have po1: "parse_optional ?opts ''--driver=weewx.drivers.vantage'' =
      Inr (Some (Some (Store \<lparr>option_string = ''--driver'', dest = ''driver'', choices = None,
                               arg_type = Identity\<rparr>),
                 ''--driver'', Some ''='', Some ''weewx.drivers.vantage''))"
    unfolding station_option_table by (simp add: parse_optional_def explicit_option_def)
  have po2: "parse_optional ?opts ''--units'' =
      Inr (Some (Some (Store \<lparr>option_string = ''--units'', dest = ''unit_system'',
                               choices = Some [''us'', ''metricwx'', ''metric''],
                               arg_type = Identity\<rparr>),
                 ''--units'', None, None))"
    unfolding station_option_table by (simp add: parse_optional_def)
  have po3: "parse_optional ?opts ''metric'' = Inr None"
    by (simp add: parse_optional_def)
  have leaf: "parse_known_args create_station_parser
                [''--driver=weewx.drivers.vantage'', ''--units'', ''metric''] =
      Parsed [ (''config'', PNone),
              (''driver'', PStr ''weewx.drivers.vantage''), (''location'', PNone),
              (''altitude'', PNone), (''latitude'', PNone), (''longitude'', PNone),
              (''register'', PNone), (''station_url'', PNone),
              (''unit_system'', PStr ''metric''), (''skin_root'', PNone),
              (''sqlite_root'', PNone), (''html_root'', PNone), (''no_prompt'', PNone),
              (''func'', PFunc Create_station) ] []"
    by (simp add: parse_known_args_def po1 po2 po3 create_initial_namespace take_action_def
          get_value_def check_value_def setattr_def)
  have parsed: "station_parse_known_args
      [''create'', ''--driver=weewx.drivers.vantage'', ''--units'', ''metric''] = Parsed ?ns []"
    by (simp add: station_action [OF upgrade_parsers(3)] leaf setattr_def)
  have absent: "\<forall>s \<in> set [''--driver=weewx.drivers.vantage'', ''--units'', ''metric''].
      \<not> selects_dest ?opts s ''altitude''"
    by (simp add: selects_dest_def po1 po2 po3)
  from absent_option_forwarded_as_None [of "''create''", OF _ parsed _ absent,
         where engine = engine_returning]
  show ?thesis by (simp add: parsed)
qed

subsection \<open>Choices\<close>








subsection \<open>Free-text arguments\<close>





text \<open>
  C1. \<^verbatim>\<open>weectl station create --register=y --station-url=URL\<close>: the parser accepts the
  URL and stores it in the namespace, but the call to the engine has no keyword for it
  and is the same whatever the URL; the engine cannot see the URL the command line gave.
\<close>

theorem station_url_not_forwarded:
  "\<exists>ns. station_parse_args [''create'', ''--register=y'', ''--station-url='' @ url] = Parsed ns [] \<and>
        map_of ns ''register'' = Some (PStr ''y'') \<and>
        map_of ns ''station_url'' = Some (PStr url) \<and>
        calls (create_station engine ns) =
          [Call_create_station
             [ (''config_path'', PNone), (''driver'', PNone), (''location'', PNone),
               (''altitude'', PNone), (''latitude'', PNone), (''longitude'', PNone),
               (''register'', PStr ''y''), (''unit_system'', PNone), (''skin_root'', PNone),
               (''sqlite_root'', PNone), (''html_root'', PNone), (''no_prompt'', PNone) ]]"
proof -
  let ?opts = "option_string_actions (arguments create_station_parser)"
  let ?ns = "[ (''action'', PStr ''create''), (''config'', PNone), (''driver'', PNone),
       (''location'', PNone), (''altitude'', PNone), (''latitude'', PNone),
       (''longitude'', PNone), (''register'', PStr ''y''), (''station_url'', PStr url),
       (''unit_system'', PNone), (''skin_root'', PNone), (''sqlite_root'', PNone),
       (''html_root'', PNone), (''no_prompt'', PNone), (''func'', PFunc Create_station) ]"
  have po1: "parse_optional ?opts ''--register=y'' =
      Inr (Some (Some (Store \<lparr>option_string = ''--register'', dest = ''register'',
                               choices = Some [''y'', ''n''], arg_type = Identity\<rparr>),
                 ''--register'', Some ''='', Some ''y''))"
    unfolding station_option_table by (simp add: parse_optional_def explicit_option_def)
  have po2: "parse_optional ?opts (''--station-url='' @ url) =
      Inr (Some (Some (Store \<lparr>option_string = ''--station-url'', dest = ''station_url'',
                               choices = None, arg_type = Identity\<rparr>),
                 ''--station-url'', Some ''='', Some url))"
    unfolding station_option_table by (simp add: parse_optional_def explicit_option_def)
  have "parse_known_args create_station_parser [''--register=y'', ''--station-url='' @ url] =
      Parsed [ (''config'', PNone), (''driver'', PNone),
       (''location'', PNone), (''altitude'', PNone), (''latitude'', PNone),
       (''longitude'', PNone), (''register'', PStr ''y''), (''station_url'', PStr url),
       (''unit_system'', PNone), (''skin_root'', PNone), (''sqlite_root'', PNone),
       (''html_root'', PNone), (''no_prompt'', PNone), (''func'', PFunc Create_station) ] []"
    using po1 po2
    by (simp add: parse_known_args_def create_initial_namespace take_action_def
          get_value_def check_value_def setattr_def)
  then have "station_parse_args [''create'', ''--register=y'', ''--station-url='' @ url] =
      Parsed ?ns []"
    by (simp add: station_parse_args_def station_action [OF upgrade_parsers(3)] setattr_def)
  moreover have "calls (create_station engine ?ns) =
          [Call_create_station
             [ (''config_path'', PNone), (''driver'', PNone), (''location'', PNone),
               (''altitude'', PNone), (''latitude'', PNone), (''longitude'', PNone),
               (''register'', PStr ''y''), (''unit_system'', PNone), (''skin_root'', PNone),
               (''sqlite_root'', PNone), (''html_root'', PNone), (''no_prompt'', PNone) ]]"
    by (simp add: create_station_def call_engine_def station_kwargs_def)
  ultimately show ?thesis by simp
qed

end
